theory Spec2Isabelle
  imports Main "HOL-Library.AList" "HOL-Library.Char_ord" "HOL-Library.List_Lexorder"
begin

section \<open>Python exceptions and strings\<close>

text \<open>
  The module \<^verbatim>\<open>nfs_exports.py\<close> edits the NFS exports file. Its functions raise
  Python exceptions; the model returns them as the left summand of a sum type.
  \<^verbatim>\<open>ValueError\<close> is what tuple unpacking and \<^verbatim>\<open>shlex\<close> raise,
  \<^verbatim>\<open>LookupError\<close> is raised by \<^verbatim>\<open>filter_export\<close>, and
  \<^verbatim>\<open>IOError\<close>/\<^verbatim>\<open>OSError\<close> come from the file system.
\<close>

datatype error = IOError | OSError | ValueError | LookupError | IndexError

definition bind_err :: "error + 'a \<Rightarrow> ('a \<Rightarrow> error + 'b) \<Rightarrow> error + 'b" where
  "bind_err r f = (case r of Inl e \<Rightarrow> Inl e | Inr x \<Rightarrow> f x)"

text \<open>\<^verbatim>\<open>s.split(c)\<close> for a one-character separator: never returns an empty list.\<close>

fun split_on :: "char \<Rightarrow> string \<Rightarrow> string list" where
  "split_on c [] = [[]]"
| "split_on c (x # xs) =
     (if x = c then [] # split_on c xs
      else (case split_on c xs of [] \<Rightarrow> [[x]] | w # ws \<Rightarrow> (x # w) # ws))"

text \<open>\<^verbatim>\<open>sep.join(xs)\<close>.\<close>

fun join :: "string \<Rightarrow> string list \<Rightarrow> string" where
  "join sep [] = []"
| "join sep [x] = x"
| "join sep (x # y # ys) = x @ sep @ join sep (y # ys)"

text \<open>
  \<^verbatim>\<open>str.lower()\<close> on the ASCII range: the letters A to Z are mapped to a to z,
  every other character is left alone.
\<close>

definition lower_char :: "char \<Rightarrow> char" where
  "lower_char c =
     (let n = (of_char c :: nat) in if 65 \<le> n \<and> n \<le> 90 then char_of (n + 32) else c)"

definition lower :: "string \<Rightarrow> string" where
  "lower s = map lower_char s"

section \<open>Option codec\<close>

text \<open>
  A Python dict of options is an association list in insertion order;
  \<^verbatim>\<open>options[key] = val\<close> overwrites in place or appends, which is
  \<^const>\<open>AList.update\<close>. Two dicts are equal in Python when they are equal as maps
  (\<^const>\<open>map_of\<close>).
\<close>

type_synonym optionset = "(string \<times> string) list"

text \<open>
  One iteration of the loop of \<^verbatim>\<open>_parse_options\<close>:
  \<^verbatim>\<open>key, val = opt.split('=')\<close> needs exactly two pieces, anything else raises
  \<^verbatim>\<open>ValueError\<close>.
\<close>

definition parse_option :: "string \<Rightarrow> error + (string \<times> string)" where
  "parse_option opt =
     (if CHR ''='' \<in> set opt
      then (case split_on CHR ''='' opt of [key, val] \<Rightarrow> Inr (key, val) | _ \<Rightarrow> Inl ValueError)
      else Inr (opt, opt))"

fun parse_option_list :: "string list \<Rightarrow> optionset \<Rightarrow> error + optionset" where
  "parse_option_list [] options = Inr options"
| "parse_option_list (opt # optionlist) options =
     (case parse_option opt of
        Inl e \<Rightarrow> Inl e
      | Inr (key, val) \<Rightarrow> parse_option_list optionlist (AList.update key val options))"

definition parse_options :: "string option \<Rightarrow> error + optionset" where
  "parse_options optionstring =
     (case optionstring of
        None \<Rightarrow> Inr []
      | Some s \<Rightarrow> parse_option_list (split_on CHR '','' s) [])"

text \<open>
  \<^verbatim>\<open>_print_options\<close>: the keys in sorted order, a flag (key equal to its value)
  bare and any other option as \<^verbatim>\<open>key=value\<close>. \<^verbatim>\<open>None\<close> is returned for
  \<^verbatim>\<open>None\<close> and when nothing was emitted. The lookup \<^verbatim>\<open>optionset[key]\<close>
  cannot miss, the key being taken from the dict itself.
\<close>

definition print_option :: "optionset \<Rightarrow> string \<Rightarrow> string" where
  "print_option optionset key =
     (case map_of optionset key of
        Some val \<Rightarrow> (if key = val then key else key @ ''='' @ val)
      | None \<Rightarrow> key)"

definition print_options_py :: "optionset option \<Rightarrow> string option" where
  "print_options_py os =
     (case os of
        None \<Rightarrow> None
      | Some optionset \<Rightarrow>
          (let output = map (print_option optionset) (sort (map fst optionset))
           in if output \<noteq> [] then Some (join '','' output) else None))"

section \<open>Entry parser\<close>

subsection \<open>The tokenizer\<close>

text \<open>
  \<^verbatim>\<open>_parse_export\<close> calls \<^verbatim>\<open>shlex.split(line, '#')\<close>. The second positional
  parameter of \<^verbatim>\<open>shlex.split\<close> is \<^verbatim>\<open>comments\<close>; the string \<^verbatim>\<open>'#'\<close> is true,
  so the lexer runs in POSIX mode with \<^verbatim>\<open>whitespace_split\<close> set and its default
  comment character \<^verbatim>\<open>#\<close>. The lexer of the standard library is the state machine
  \<^verbatim>\<open>shlex.read_token\<close>: its states are \<^verbatim>\<open>None\<close> (end of input), \<^verbatim>\<open>' '\<close>
  (between tokens), \<^verbatim>\<open>'a'\<close> (inside a word), a quote character (inside quotes) and
  the escape character, which remembers the state to return to in
  \<^verbatim>\<open>escapedstate\<close>.
\<close>

datatype lexstate = Eof | Space | Word | Quote char | Escape lexstate

definition whitespace :: "char \<Rightarrow> bool" where
  "whitespace c = (c = CHR '' '' \<or> c = CHR 0x09 \<or> c = CHR 0x0D \<or> c = CHR 0x0A)"

definition commenters :: "char \<Rightarrow> bool" where
  "commenters c = (c = CHR ''#'')"

definition quotes :: "char \<Rightarrow> bool" where
  "quotes c = (c = CHR 0x27 \<or> c = CHR 0x22)"

definition escape :: "char \<Rightarrow> bool" where
  "escape c = (c = CHR 0x5C)"

definition escapedquotes :: "char \<Rightarrow> bool" where
  "escapedquotes c = (c = CHR 0x22)"

text \<open>\<^verbatim>\<open>instream.readline()\<close>: the rest of the line, with its newline, is consumed.\<close>

fun readline :: "string \<Rightarrow> string" where
  "readline [] = []"
| "readline (c # cs) = (if c = CHR 0x0A then cs else readline cs)"

lemma length_readline [simp]: "length (readline cs) \<le> length cs"
  by (induction cs) auto

text \<open>
  What \<^verbatim>\<open>read_token\<close> returns in POSIX mode: \<^verbatim>\<open>None\<close> for an empty token that was
  never quoted.
\<close>

definition token_result :: "bool \<Rightarrow> string \<Rightarrow> string option" where
  "token_result quoted token = (if \<not> quoted \<and> token = [] then None else Some token)"

text \<open>
  \<^verbatim>\<open>read_token\<close>, one equation group per state. The arguments are the lexer state,
  the local \<^verbatim>\<open>quoted\<close>, the token read so far and the unread input; the result is
  the token, the state the lexer is left in and the input left. With
  \<^verbatim>\<open>whitespace_split\<close> every character that is no white space, comment, escape or
  quote character starts or extends a word, as the word characters do.
\<close>

function read_token ::
  "lexstate \<Rightarrow> bool \<Rightarrow> string \<Rightarrow> string \<Rightarrow> error + (string option \<times> lexstate \<times> string)" where
  "read_token Eof quoted token inp = Inr (token_result quoted [], Eof, drop 1 inp)"
| "read_token Space quoted token [] = Inr (token_result quoted token, Eof, [])"
| "read_token Space quoted token (c # cs) =
     (if whitespace c then
        (if token \<noteq> [] \<or> quoted then Inr (token_result quoted token, Space, cs)
         else read_token Space quoted token cs)
      else if commenters c then read_token Space quoted token (readline cs)
      else if escape c then read_token (Escape Word) quoted token cs
      else if quotes c then read_token (Quote c) quoted token cs
      else read_token Word quoted [c] cs)"
| "read_token (Quote qc) quoted token [] = Inl ValueError"
| "read_token (Quote qc) quoted token (c # cs) =
     (if c = qc then read_token Word True token cs
      else if escape c \<and> escapedquotes qc then read_token (Escape (Quote qc)) True token cs
      else read_token (Quote qc) True (token @ [c]) cs)"
| "read_token (Escape escapedstate) quoted token [] = Inl ValueError"
| "read_token (Escape escapedstate) quoted token (c # cs) =
     (case escapedstate of
        Quote qc \<Rightarrow>
          (if \<not> escape c \<and> c \<noteq> qc
           then read_token escapedstate quoted (token @ [CHR 0x5C] @ [c]) cs
           else read_token escapedstate quoted (token @ [c]) cs)
      | _ \<Rightarrow> read_token escapedstate quoted (token @ [c]) cs)"
| "read_token Word quoted token [] = Inr (token_result quoted token, Eof, [])"
| "read_token Word quoted token (c # cs) =
     (if whitespace c then
        (if token \<noteq> [] \<or> quoted then Inr (token_result quoted token, Space, cs)
         else read_token Space quoted token cs)
      else if commenters c then
        (if token \<noteq> [] \<or> quoted then Inr (token_result quoted token, Space, readline cs)
         else read_token Space quoted token (readline cs))
      else if quotes c then read_token (Quote c) quoted token cs
      else if escape c then read_token (Escape Word) quoted token cs
      else read_token Word quoted (token @ [c]) cs)"
  by pat_completeness auto
termination
  by (relation "measure (\<lambda>(st, quoted, token, inp). length inp)")
     (auto simp: le_imp_less_Suc)

lemma read_token_length:
  "read_token st quoted token inp = Inr (r, st', rest) \<Longrightarrow>
     length rest \<le> length inp \<and> (r \<noteq> None \<and> token = [] \<and> \<not> quoted \<longrightarrow> length rest < length inp)"
proof (induction st quoted token inp rule: read_token.induct)
  case (1 quoted token inp)
  then show ?case by (auto simp: token_result_def)
next
  case (2 quoted token)
  then show ?case by (auto simp: token_result_def)
next
  case (3 quoted token c cs)
  then show ?case
    using length_readline [of cs]
    by (auto simp: token_result_def simp del: length_readline split: if_splits)
next
  case (4 qc quoted token)
  then show ?case by simp
next
  case (5 qc quoted token c cs)
  then show ?case by (auto simp: le_imp_less_Suc split: if_splits)
next
  case (6 escapedstate quoted token)
  then show ?case by simp
next
  case (7 escapedstate quoted token c cs)
  then show ?case by (auto simp: le_imp_less_Suc split: if_splits lexstate.splits)
next
  case (8 quoted token)
  then show ?case by (auto simp: token_result_def)
next
  case (9 quoted token c cs)
  then show ?case
    using length_readline [of cs]
    by (auto simp: token_result_def simp del: length_readline split: if_splits)
qed

text \<open>
  \<^verbatim>\<open>list(lex)\<close>: tokens are read until \<^verbatim>\<open>read_token\<close> returns \<^verbatim>\<open>None\<close>; each call
  starts with an empty token and \<^verbatim>\<open>quoted\<close> false.
\<close>

function shlex_tokens :: "lexstate \<Rightarrow> string \<Rightarrow> error + string list" where
  "shlex_tokens st inp =
     (case read_token st False [] inp of
        Inl e \<Rightarrow> Inl e
      | Inr (None, st', rest) \<Rightarrow> Inr []
      | Inr (Some t, st', rest) \<Rightarrow>
          (case shlex_tokens st' rest of Inl e \<Rightarrow> Inl e | Inr ts \<Rightarrow> Inr (t # ts)))"
  by pat_completeness auto
termination
  by (relation "measure (\<lambda>(st, inp). length inp)") (auto dest: read_token_length)

definition shlex_split :: "string \<Rightarrow> error + string list" where
  "shlex_split s = shlex_tokens Space s"

subsection \<open>Host groups\<close>

text \<open>An export entry is the tuple \<^verbatim>\<open>(path, host, optionstring)\<close>.\<close>

type_synonym export = "string \<times> string \<times> string"

text \<open>
  The body of the loop of \<^verbatim>\<open>_parse_export\<close>. The test
  \<^verbatim>\<open>'(' and ')' in host\<close> is Python's \<^verbatim>\<open>'(' and (')' in host)\<close>: the non-empty
  string \<^verbatim>\<open>'('\<close> is true, so only the closing parenthesis is looked for.
  \<^verbatim>\<open>host, optionstring = host[:-1].split('(')\<close> raises \<^verbatim>\<open>ValueError\<close> unless
  the split has exactly two pieces.
\<close>

definition parse_host :: "string \<Rightarrow> string \<Rightarrow> error + export" where
  "parse_host path host =
     (if CHR '')'' \<in> set host then
        (case host of
           [] \<Rightarrow> Inl IndexError
         | c # _ \<Rightarrow>
             (if c \<noteq> CHR ''(''
              then (case split_on CHR ''('' (butlast host) of
                      [h, optionstring] \<Rightarrow> Inr (path, h, optionstring)
                    | _ \<Rightarrow> Inl ValueError)
              else Inr (path, ''*'', butlast (tl host))))
      else Inr (path, host, []))"

fun parse_hosts :: "string \<Rightarrow> string list \<Rightarrow> error + export list" where
  "parse_hosts path [] = Inr []"
| "parse_hosts path (host # hosts) =
     (case parse_host path host of
        Inl e \<Rightarrow> Inl e
      | Inr exp \<Rightarrow> (case parse_hosts path hosts of Inl e \<Rightarrow> Inl e | Inr exports \<Rightarrow> Inr (exp # exports)))"

definition parse_export :: "string \<Rightarrow> error + export list" where
  "parse_export line =
     (if length line < 1 then Inr []
      else (case shlex_split line of
              Inl e \<Rightarrow> Inl e
            | Inr parts \<Rightarrow>
                (if length parts < 1 then Inr []
                 else (case parts of [] \<Rightarrow> Inr [] | path # hosts \<Rightarrow> parse_hosts path hosts))))"

section \<open>Matcher\<close>

text \<open>The test both loops apply to an entry.\<close>

definition same_export :: "export \<Rightarrow> string \<Rightarrow> string \<Rightarrow> bool" where
  "same_export exp path host = (fst exp = path \<and> lower (fst (snd exp)) = lower host)"

fun match_loop :: "export list \<Rightarrow> string \<Rightarrow> string \<Rightarrow> bool \<Rightarrow> bool" where
  "match_loop [] path host found = found"
| "match_loop (exp # exportlist) path host found =
     (if same_export exp path host then match_loop exportlist path host True
      else match_loop exportlist path host found)"

definition match_export :: "export list option \<Rightarrow> string \<Rightarrow> string \<Rightarrow> bool" where
  "match_export exportlist path host =
     (case exportlist of
        None \<Rightarrow> False
      | Some exps \<Rightarrow> (if length exps < 1 then False else match_loop exps path host False))"

fun filter_loop :: "export list \<Rightarrow> string \<Rightarrow> string \<Rightarrow> bool \<times> export list \<Rightarrow> bool \<times> export list" where
  "filter_loop [] path host (found, newlist) = (found, newlist)"
| "filter_loop (exp # exportlist) path host (found, newlist) =
     (if same_export exp path host then filter_loop exportlist path host (True, newlist)
      else filter_loop exportlist path host (found, newlist @ [exp]))"

definition filter_export :: "export list option \<Rightarrow> string \<Rightarrow> string \<Rightarrow> error + export list" where
  "filter_export exportlist path host =
     (case exportlist of
        None \<Rightarrow> Inl LookupError
      | Some exps \<Rightarrow>
          (if length exps < 1 then Inl LookupError
           else (case filter_loop exps path host (False, []) of
                   (found, newlist) \<Rightarrow> if \<not> found then Inl LookupError else Inr newlist)))"

section \<open>Files\<close>

text \<open>
  The module is Python 2 code: a file opened in mode \<^verbatim>\<open>"r"\<close> yields its lines as
  byte strings cut after each \<^verbatim>\<open>\n\<close>, and the temporary file takes
  \<^verbatim>\<open>str\<close> values.
\<close>

text \<open>
  The file system holds the exports file (\<^verbatim>\<open>/etc/exports\<close>, absent or with its
  content) and says whether the temporary file that \<^verbatim>\<open>replace_export\<close> creates
  exists. What is written to the temporary file is kept with its handle and reaches the
  exports file at the rename. \<^verbatim>\<open>os.unlink\<close> of the temporary file is taken to
  succeed.
\<close>

record fs =
  exports_file :: "string option"
  tmp_exists :: bool

text \<open>
  The operations that can raise: creating the temporary file, opening an existing
  exports file, locking it, writing (the device takes \<^verbatim>\<open>disk_limit\<close> characters
  of the temporary file at most) and the final rename.
\<close>

record env =
  mktemp_fails :: bool
  open_fails :: bool
  flock_fails :: bool
  disk_limit :: "nat option"
  rename_fails :: bool

text \<open>\<^verbatim>\<open>outfile.write(s)\<close> on the content written so far.\<close>

definition file_write :: "env \<Rightarrow> string \<Rightarrow> string \<Rightarrow> error + string" where
  "file_write ev s out =
     (case disk_limit ev of
        None \<Rightarrow> Inr (out @ s)
      | Some n \<Rightarrow> if length (out @ s) \<le> n then Inr (out @ s) else Inl IOError)"

text \<open>
  \<^verbatim>\<open>_open_exports\<close>: the content the handle reads, and the file system after the call
  (mode \<^verbatim>\<open>"w"\<close> creates the missing file). The messages stored in \<^verbatim>\<open>result\<close>
  decide nothing and are left out.
\<close>

definition open_exports :: "env \<Rightarrow> bool \<Rightarrow> fs \<Rightarrow> (error + string) \<times> fs" where
  "open_exports ev canwrite f =
     (case exports_file f of
        None \<Rightarrow>
          (if canwrite then
             (if open_fails ev then (Inl IOError, f)
              else if flock_fails ev then (Inl IOError, f\<lparr>exports_file := Some []\<rparr>)
              else (Inr [], f\<lparr>exports_file := Some []\<rparr>))
           else (Inl IOError, f))
      | Some content \<Rightarrow>
          (if open_fails ev then (Inl IOError, f)
           else if canwrite \<and> flock_fails ev then (Inl IOError, f)
           else (Inr content, f)))"

text \<open>
  \<^verbatim>\<open>for line in infile\<close>: the content cut after each newline; a last line without a
  newline is a line too.
\<close>

fun lines_from :: "string \<Rightarrow> string \<Rightarrow> string list" where
  "lines_from cur [] = (if cur = [] then [] else [cur])"
| "lines_from cur (c # cs) =
     (if c = CHR 0x0A then (cur @ [c]) # lines_from [] cs else lines_from (cur @ [c]) cs)"

definition file_lines :: "string \<Rightarrow> string list" where
  "file_lines content = lines_from [] content"

text \<open>
  \<^verbatim>\<open>_write_exports\<close>: the path is written when it differs from the last one, in double
  quotes when it contains a space; then each host, with its options in parentheses
  when there are any; then a newline.
\<close>

fun write_exports_loop :: "env \<Rightarrow> string option \<Rightarrow> export list \<Rightarrow> string \<Rightarrow> error + string" where
  "write_exports_loop ev lastpath [] out = file_write ev [CHR 0x0A] out"
| "write_exports_loop ev lastpath ((path, host, opt) # exports) out =
     bind_err
       (if Some path \<noteq> lastpath
        then file_write ev (if CHR '' '' \<in> set path then [CHR 0x22] @ path @ [CHR 0x22] else path) out
        else Inr out)
       (\<lambda>out1. bind_err
          (if length opt > 0 then file_write ev ('' '' @ host @ ''('' @ opt @ '')'') out1
           else file_write ev ('' '' @ host) out1)
          (\<lambda>out2. write_exports_loop ev (Some path) exports out2))"

definition write_exports :: "env \<Rightarrow> export list \<Rightarrow> string \<Rightarrow> error + string" where
  "write_exports ev exports out = write_exports_loop ev None exports out"

section \<open>Transactional rewriter\<close>

text \<open>
  The body of the loop of \<^verbatim>\<open>replace_export\<close>, on the output written so far and the
  counter \<^verbatim>\<open>lines\<close>.
\<close>

definition process_line ::
  "env \<Rightarrow> string \<Rightarrow> string \<Rightarrow> bool \<Rightarrow> string \<Rightarrow> string \<times> nat \<Rightarrow> error + (string \<times> nat)" where
  "process_line ev path clients clear_all line st =
     (case st of (out, lines) \<Rightarrow>
        (if line = [] \<or> hd line = CHR ''#''
         then bind_err (file_write ev line out) (\<lambda>out1. Inr (out1, lines + 1))
         else if clear_all then Inr (out, lines)
         else bind_err (parse_export line) (\<lambda>exports.
                if match_export (Some exports) path clients
                then bind_err (filter_export (Some exports) path clients) (\<lambda>exports1.
                       if exports1 \<noteq> []
                       then bind_err (write_exports ev exports1 out) (\<lambda>out1. Inr (out1, lines + 1))
                       else Inr (out, lines))
                else bind_err (file_write ev line out) (\<lambda>out1. Inr (out1, lines + 1)))))"

fun copy_lines ::
  "env \<Rightarrow> string \<Rightarrow> string \<Rightarrow> bool \<Rightarrow> string list \<Rightarrow> string \<times> nat \<Rightarrow> error + (string \<times> nat)" where
  "copy_lines ev path clients clear_all [] st = Inr st"
| "copy_lines ev path clients clear_all (line # rest) st =
     bind_err (process_line ev path clients clear_all line st)
       (\<lambda>st1. copy_lines ev path clients clear_all rest st1)"

definition managed_comment :: string where
  "managed_comment = ''# NFS exports managed by Ansible\<newline>''"

text \<open>
  The second \<^verbatim>\<open>try\<close> block of \<^verbatim>\<open>replace_export\<close> up to the rename: the new
  content of the exports file, or the exception.
\<close>

definition rewrite ::
  "env \<Rightarrow> string \<Rightarrow> string \<Rightarrow> string option \<Rightarrow> bool \<Rightarrow> string \<Rightarrow> error + string" where
  "rewrite ev path clients options clear_all infile =
     bind_err (copy_lines ev path clients clear_all (file_lines infile) ([], 0)) (\<lambda>(out, lines).
       bind_err (if lines = 0 then file_write ev managed_comment out else Inr out) (\<lambda>out1.
         bind_err (case options of
                     None \<Rightarrow> Inr out1
                   | Some opts \<Rightarrow> write_exports ev [(path, clients, opts)] out1) (\<lambda>out2.
           if rename_fails ev then Inl OSError else Inr out2)))"

text \<open>
  \<^verbatim>\<open>replace_export\<close>. Both handlers delete the temporary file and raise again; the
  second catches \<^verbatim>\<open>(IOError, OSError)\<close> only, any other exception leaves the block
  as it is.
\<close>

definition replace_export ::
  "env \<Rightarrow> string \<Rightarrow> string \<Rightarrow> string option \<Rightarrow> bool \<Rightarrow> fs \<Rightarrow> (error + unit) \<times> fs" where
  "replace_export ev path clients options clear_all f =
     (if mktemp_fails ev then (Inl OSError, f)
      else
        (let f1 = f\<lparr>tmp_exists := True\<rparr> in
         case open_exports ev False f1 of
           (Inl e, f2) \<Rightarrow>
             (if e = IOError then (Inl e, f2\<lparr>tmp_exists := False\<rparr>) else (Inl e, f2))
         | (Inr infile, f2) \<Rightarrow>
             (case rewrite ev path clients options clear_all infile of
                Inl e \<Rightarrow>
                  (if e = IOError \<or> e = OSError then (Inl e, f2\<lparr>tmp_exists := False\<rparr>)
                   else (Inl e, f2))
              | Inr out \<Rightarrow> (Inr (), f2\<lparr>exports_file := Some out, tmp_exists := False\<rparr>))))"

definition no_faults :: env where
  "no_faults = \<lparr>mktemp_fails = False, open_fails = False, flock_fails = False,
                disk_limit = None, rename_fails = False\<rparr>"

section \<open>Predicates used to state the properties\<close>

text \<open>
  A string that the option syntax can carry as a name or a value: it contains neither
  the separator of options nor the separator of name and value.
\<close>

definition plain :: "string \<Rightarrow> bool" where
  "plain s = (CHR '','' \<notin> set s \<and> CHR ''='' \<notin> set s)"

text \<open>
  The text of one line of the exports file, as the format has it: the path, in double
  quotes when it contains a space, then each host group, the options in parentheses
  when there are any, and a newline.
\<close>

definition quoted_path :: "string \<Rightarrow> string" where
  "quoted_path path = (if CHR '' '' \<in> set path then [CHR 0x22] @ path @ [CHR 0x22] else path)"

definition host_text :: "export \<Rightarrow> string" where
  "host_text exp =
     (case exp of (path, host, opt) \<Rightarrow> '' '' @ host @ (if opt = [] then [] else ''('' @ opt @ '')''))"

definition line_text :: "string \<Rightarrow> export list \<Rightarrow> string" where
  "line_text path exps = quoted_path path @ concat (map host_text exps) @ [CHR 0x0A]"

section \<open>Basic facts\<close>

lemma bind_err_Inr [simp]: "bind_err (Inr x) f = f x"
  by (simp add: bind_err_def)

lemma bind_err_Inl [simp]: "bind_err (Inl e) f = Inl e"
  by (simp add: bind_err_def)

lemma bind_err_eq_Inr: "bind_err r f = Inr y \<longleftrightarrow> (\<exists>x. r = Inr x \<and> f x = Inr y)"
  by (cases r) auto

subsection \<open>Splitting and joining\<close>

lemma split_on_nonempty: "split_on c s \<noteq> []"
  by (induction s) (auto split: list.splits)

lemma split_on_absent: "c \<notin> set s \<Longrightarrow> split_on c s = [s]"
  by (induction s) auto

lemma split_on_append: "c \<notin> set a \<Longrightarrow> split_on c (a @ c # b) = a # split_on c b"
  by (induction a) auto

lemma split_on_join:
  "xs \<noteq> [] \<Longrightarrow> \<forall>x\<in>set xs. c \<notin> set x \<Longrightarrow> split_on c (join [c] xs) = xs"
proof (induction xs)
  case Nil
  then show ?case by simp
next
  case (Cons x xs)
  then show ?case
    by (cases xs) (auto simp: split_on_absent split_on_append)
qed

lemma parse_print_option:
  assumes "map_of S k = Some v" "plain k" "plain v"
  shows "parse_option (print_option S k) = Inr (k, v)"
proof (cases "k = v")
  case True
  with assms show ?thesis by (simp add: parse_option_def print_option_def plain_def)
next
  case False
  have "split_on CHR ''='' (k @ CHR ''='' # v) = [k, v]"
    using assms by (simp add: split_on_append split_on_absent plain_def)
  with False assms show ?thesis by (simp add: parse_option_def print_option_def)
qed

lemma print_option_no_comma:
  "map_of S k = Some v \<Longrightarrow> plain k \<Longrightarrow> plain v \<Longrightarrow> CHR '','' \<notin> set (print_option S k)"
  by (auto simp: print_option_def plain_def)

lemma parse_option_list_print:
  "\<forall>k\<in>set ks. \<exists>v. map_of S k = Some v \<and> plain k \<and> plain v \<Longrightarrow>
   \<exists>d. parse_option_list (map (print_option S) ks) acc = Inr d \<and>
       map_of d = (\<lambda>x. if x \<in> set ks then map_of S x else map_of acc x)"
proof (induction ks arbitrary: acc)
  case Nil
  then show ?case by simp
next
  case (Cons k ks)
  then obtain v where v: "map_of S k = Some v" "plain k" "plain v" by auto
  from Cons.prems have "\<forall>k\<in>set ks. \<exists>v. map_of S k = Some v \<and> plain k \<and> plain v" by simp
  from Cons.IH [OF this, of "AList.update k v acc"] obtain d where
    d: "parse_option_list (map (print_option S) ks) (AList.update k v acc) = Inr d"
       "map_of d = (\<lambda>x. if x \<in> set ks then map_of S x else map_of (AList.update k v acc) x)"
    by blast
  have "parse_option_list (map (print_option S) (k # ks)) acc = Inr d"
    using d(1) v by (simp add: parse_print_option)
  moreover have "map_of d = (\<lambda>x. if x \<in> set (k # ks) then map_of S x else map_of acc x)"
    using d(2) v(1) by (auto simp: update_conv' fun_eq_iff)
  ultimately show ?case by blast
qed

subsection \<open>The two loops of the matcher\<close>

lemma match_loop_eq:
  "match_loop exps path host found = (found \<or> list_ex (\<lambda>e. same_export e path host) exps)"
  by (induction exps arbitrary: found) auto

lemma filter_loop_eq:
  "filter_loop exps path host (found, newlist) =
     (found \<or> list_ex (\<lambda>e. same_export e path host) exps,
      newlist @ filter (\<lambda>e. \<not> same_export e path host) exps)"
  by (induction exps arbitrary: found newlist) auto

lemma match_export_eq:
  "match_export (Some exps) path host = list_ex (\<lambda>e. same_export e path host) exps"
  by (cases exps) (auto simp: match_export_def match_loop_eq)

lemma filter_export_eq:
  "filter_export (Some exps) path host =
     (if list_ex (\<lambda>e. same_export e path host) exps
      then Inr (filter (\<lambda>e. \<not> same_export e path host) exps)
      else Inl LookupError)"
  by (cases exps) (auto simp: filter_export_def filter_loop_eq)

subsection \<open>Host groups\<close>

lemma parse_host_error: "parse_host path host = Inl e \<Longrightarrow> e = ValueError"
  by (cases host) (auto simp: parse_host_def split: if_splits list.splits)

lemma parse_host_close_only:
  "CHR '')'' \<in> set host \<Longrightarrow> CHR ''('' \<notin> set host \<Longrightarrow> parse_host path host = Inl ValueError"
proof -
  assume a: "CHR '')'' \<in> set host" "CHR ''('' \<notin> set host"
  then obtain c cs where host: "host = c # cs" by (cases host) auto
  have "CHR ''('' \<notin> set (butlast host)" using a(2) by (auto dest: in_set_butlastD)
  then have "split_on CHR ''('' (butlast host) = [butlast host]" by (rule split_on_absent)
  moreover have "c \<noteq> CHR ''(''" using a(2) host by auto
  ultimately show ?thesis using a(1) host by (simp add: parse_host_def)
qed

lemma parse_host_no_close:
  "CHR '')'' \<notin> set host \<Longrightarrow> parse_host path host = Inr (path, host, [])"
  by (simp add: parse_host_def)

lemma parse_hosts_error: "parse_hosts path hosts = Inl e \<Longrightarrow> e = ValueError"
  by (induction hosts arbitrary: e) (auto split: sum.splits dest: parse_host_error)

lemma parse_hosts_close_only:
  "\<exists>h\<in>set hosts. CHR '')'' \<in> set h \<and> CHR ''('' \<notin> set h \<Longrightarrow> parse_hosts path hosts = Inl ValueError"
proof (induction hosts)
  case Nil
  then show ?case by simp
next
  case (Cons h hosts)
  show ?case
  proof (cases "parse_host path h")
    case (Inl e)
    then show ?thesis by (simp add: parse_host_error)
  next
    case (Inr exp)
    then have "\<not> (CHR '')'' \<in> set h \<and> CHR ''('' \<notin> set h)"
      using parse_host_close_only [of h path] by auto
    with Cons.prems have "\<exists>h\<in>set hosts. CHR '')'' \<in> set h \<and> CHR ''('' \<notin> set h" by auto
    with Cons.IH Inr show ?thesis by simp
  qed
qed

lemma parse_hosts_no_close:
  "\<forall>h\<in>set hosts. CHR '')'' \<notin> set h \<Longrightarrow> parse_hosts path hosts = Inr (map (\<lambda>h. (path, h, [])) hosts)"
  by (induction hosts) (auto simp: parse_host_no_close)

lemma shlex_split_Nil: "shlex_split [] = Inr []"
  by (simp add: shlex_split_def token_result_def)

lemma parse_export_tokens:
  "shlex_split line = Inr (path # hosts) \<Longrightarrow> parse_export line = parse_hosts path hosts"
  by (cases line) (auto simp: parse_export_def shlex_split_Nil)

lemma parse_host_path: "parse_host path host = Inr (p, h, opt) \<Longrightarrow> p = path"
  by (cases host) (auto simp: parse_host_def split: if_splits list.splits)

lemma parse_hosts_path: "parse_hosts path hosts = Inr exps \<Longrightarrow> \<forall>e\<in>set exps. fst e = path"
proof (induction hosts arbitrary: exps)
  case Nil
  then show ?case by simp
next
  case (Cons host hosts)
  from Cons.prems obtain e es where
    e: "parse_host path host = Inr e" and es: "parse_hosts path hosts = Inr es" and
    exps: "exps = e # es"
    by (auto split: sum.splits)
  from e have "fst e = path" by (cases e) (auto dest: parse_host_path)
  with Cons.IH [OF es] exps show ?case by simp
qed

lemma parse_export_path: "parse_export line = Inr exps \<Longrightarrow> \<exists>p. \<forall>e\<in>set exps. fst e = p"
  by (auto simp: parse_export_def split: if_splits sum.splits list.splits dest: parse_hosts_path)

subsection \<open>Writing\<close>

lemma file_write_Inr: "file_write ev s out = Inr out1 \<Longrightarrow> out1 = out @ s"
  by (auto simp: file_write_def split: option.splits if_splits)

lemma file_write_unlimited: "disk_limit ev = None \<Longrightarrow> file_write ev s out = Inr (out @ s)"
  by (simp add: file_write_def)

lemma write_exports_loop_text:
  "\<forall>e\<in>set exps. fst e = p \<Longrightarrow> write_exports_loop ev lastpath exps out = Inr out1 \<Longrightarrow>
     out1 = out @ (if exps \<noteq> [] \<and> lastpath \<noteq> Some p then quoted_path p else [])
                @ concat (map host_text exps) @ [CHR 0x0A]"
proof (induction exps arbitrary: lastpath out)
  case Nil
  then show ?case by (auto dest: file_write_Inr)
next
  case (Cons e exps)
  obtain h opt where e: "e = (p, h, opt)" using Cons.prems(1) by (cases e) auto
  from Cons.prems(2) obtain o1 o2 where
    w1: "(if Some p \<noteq> lastpath
          then file_write ev (if CHR '' '' \<in> set p then [CHR 0x22] @ p @ [CHR 0x22] else p) out
          else Inr out) = Inr o1" and
    w2: "(if opt \<noteq> [] then file_write ev ('' '' @ h @ ''('' @ opt @ '')'') o1
          else file_write ev ('' '' @ h) o1) = Inr o2" and
    w3: "write_exports_loop ev (Some p) exps o2 = Inr out1"
    unfolding e by (auto simp: bind_err_eq_Inr)
  have o1: "o1 = out @ (if lastpath \<noteq> Some p then quoted_path p else [])"
    using w1 by (auto simp: quoted_path_def split: if_splits dest: file_write_Inr)
  have o2: "o2 = o1 @ host_text e"
    using w2 by (auto simp: e host_text_def split: if_splits dest: file_write_Inr)
  from Cons.prems(1) have "\<forall>e\<in>set exps. fst e = p" by simp
  from Cons.IH [OF this w3] o1 o2 show ?case by simp
qed

lemma write_exports_loop_unlimited:
  "disk_limit ev = None \<Longrightarrow> \<exists>out1. write_exports_loop ev lastpath exps out = Inr out1"
proof (induction exps arbitrary: lastpath out)
  case Nil
  then show ?case by (simp add: file_write_unlimited)
next
  case (Cons e exps)
  obtain p h opt where e: "e = (p, h, opt)" by (cases e) auto
  show ?case using Cons unfolding e by (simp add: file_write_unlimited)
qed

lemma write_exports_text:
  "exps \<noteq> [] \<Longrightarrow> \<forall>e\<in>set exps. fst e = p \<Longrightarrow> write_exports ev exps out = Inr out1 \<Longrightarrow>
     out1 = out @ line_text p exps"
  unfolding write_exports_def line_text_def
  by (drule (1) write_exports_loop_text) simp

lemma write_exports_nonempty: "write_exports ev exps out = Inr out1 \<Longrightarrow> out1 \<noteq> []"
proof -
  have "write_exports_loop ev lastpath exps out = Inr out1 \<Longrightarrow> out1 \<noteq> []" for lastpath
  proof (induction exps arbitrary: lastpath out)
    case Nil
    then show ?case by (auto dest: file_write_Inr)
  next
    case (Cons e exps)
    obtain p h opt where e: "e = (p, h, opt)" by (cases e) auto
    from Cons.prems obtain o2 where "write_exports_loop ev (Some p) exps o2 = Inr out1"
      unfolding e by (auto simp: bind_err_eq_Inr)
    then show ?case by (rule Cons.IH)
  qed
  then show "write_exports ev exps out = Inr out1 \<Longrightarrow> out1 \<noteq> []"
    by (simp add: write_exports_def)
qed

subsection \<open>The line counter\<close>

lemma lines_from_nonempty: "\<forall>l\<in>set (lines_from cur cs). l \<noteq> []"
  by (induction cs arbitrary: cur) auto

lemma file_lines_nonempty: "\<forall>l\<in>set (file_lines content). l \<noteq> []"
  by (simp add: file_lines_def lines_from_nonempty)

lemma process_line_count:
  assumes "process_line ev path clients clear_all line (out, n) = Inr (out1, n1)"
    and "line \<noteq> []" and "n = 0 \<longleftrightarrow> out = []"
  shows "n1 = 0 \<longleftrightarrow> out1 = []"
  using assms
  by (auto simp: process_line_def bind_err_eq_Inr split: if_splits
           dest: file_write_Inr write_exports_nonempty)

lemma copy_lines_count:
  "copy_lines ev path clients clear_all ls (out, n) = Inr (out1, n1) \<Longrightarrow>
   \<forall>l\<in>set ls. l \<noteq> [] \<Longrightarrow> (n = 0 \<longleftrightarrow> out = []) \<Longrightarrow> (n1 = 0 \<longleftrightarrow> out1 = [])"
proof (induction ls arbitrary: out n)
  case Nil
  then show ?case by simp
next
  case (Cons l ls)
  from Cons.prems(1) obtain o2 n2 where
    a: "process_line ev path clients clear_all l (out, n) = Inr (o2, n2)" and
    b: "copy_lines ev path clients clear_all ls (o2, n2) = Inr (out1, n1)"
    by (auto simp: bind_err_eq_Inr)
  from Cons.prems(2) have "l \<noteq> []" by simp
  from process_line_count [OF a this Cons.prems(3)] have "n2 = 0 \<longleftrightarrow> o2 = []" .
  from Cons.IH [OF b _ this] Cons.prems(2) show ?case by simp
qed

section \<open>Option codec: properties\<close>

text \<open>
  Claim C2, as the specification states it: for every option set \<open>S\<close>,
  \<^verbatim>\<open>_parse_options(_print_options(S))\<close> equals \<open>S\<close>. It fails for a value that
  contains a comma: the set with the one option \<^verbatim>\<open>a\<close> of value \<^verbatim>\<open>b,c\<close> is printed as
  \<^verbatim>\<open>a=b,c\<close> and read back as \<^verbatim>\<open>a=b\<close> and the flag \<^verbatim>\<open>c\<close>.
\<close>

theorem C2_roundtrip_counterexample:
  "parse_options (print_options_py (Some [(''a'', ''b,c'')])) = Inr [(''a'', ''b''), (''c'', ''c'')]
   \<and> map_of [(''a'', ''b''), (''c'', ''c'')] ''a'' \<noteq> map_of [(''a'', ''b,c'')] ''a''"
  by code_simp

text \<open>
  Claim C2, amended: for every option set whose names and values contain neither
  \<^verbatim>\<open>,\<close> nor \<^verbatim>\<open>=\<close>, parsing the printed form succeeds and yields a dict equal to the
  set as a map, whatever the order of emission.
\<close>

theorem C2_roundtrip:
  assumes "\<forall>(k, v)\<in>set S. plain k \<and> plain v"
  shows "\<exists>d. parse_options (print_options_py (Some S)) = Inr d \<and> map_of d = map_of S"
proof (cases "S = []")
  case True
  then show ?thesis by (simp add: print_options_py_def parse_options_def)
next
  case False
  let ?ks = "sort (map fst S)"
  let ?out = "map (print_option S) ?ks"
  have keys: "\<forall>k\<in>set ?ks. \<exists>v. map_of S k = Some v \<and> plain k \<and> plain v"
  proof
    fix k assume "k \<in> set ?ks"
    then have "k \<in> fst ` set S" by simp
    then obtain v where v: "map_of S k = Some v"
      by (metis domD dom_map_of_conv_image_fst)
    then have "(k, v) \<in> set S" by (rule map_of_SomeD)
    with assms v show "\<exists>v. map_of S k = Some v \<and> plain k \<and> plain v" by auto
  qed
  have "length ?out = length S" by simp
  with False have ne: "?out \<noteq> []" by (metis length_0_conv)
  have "\<forall>x\<in>set ?out. CHR '','' \<notin> set x"
    using keys by (auto simp del: set_sort dest: print_option_no_comma)
  with ne have split: "split_on CHR '','' (join '','' ?out) = ?out"
    by (intro split_on_join) auto
  from parse_option_list_print [OF keys, of "[]"] obtain d where
    d: "parse_option_list ?out [] = Inr d"
       "map_of d = (\<lambda>x. if x \<in> set ?ks then map_of S x else map_of [] x)"
    by blast
  have "map_of d = map_of S"
  proof
    fix x
    show "map_of d x = map_of S x"
    proof (cases "x \<in> set ?ks")
      case True
      then show ?thesis by (simp add: d(2))
    next
      case False
      then have "x \<notin> fst ` set S" by simp
      then have "map_of S x = None" by (simp add: map_of_eq_None_iff)
      with False show ?thesis by (simp add: d(2))
    qed
  qed
  moreover have "parse_options (print_options_py (Some S)) = Inr d"
    using ne split d(1) by (simp add: print_options_py_def parse_options_def Let_def)
  ultimately show ?thesis by blast
qed

text \<open>Claim C2, the amended theorem at the options \<^verbatim>\<open>sec=krb5\<close> and \<^verbatim>\<open>ro\<close>.\<close>

theorem C2_roundtrip_witness:
  "\<exists>d. parse_options (print_options_py (Some [(''sec'', ''krb5''), (''ro'', ''ro'')])) = Inr d
       \<and> map_of d = map_of [(''sec'', ''krb5''), (''ro'', ''ro'')]"
  using C2_roundtrip [of "[(''sec'', ''krb5''), (''ro'', ''ro'')]"]
  by (simp add: plain_def)


text \<open>
  Claim C5: \<^verbatim>\<open>_parse_options\<close> splits each token on the first \<^verbatim>\<open>=\<close>, so that a
  value may contain \<^verbatim>\<open>=\<close>, and an empty option string yields the empty set. The code
  splits on every \<^verbatim>\<open>=\<close> and unpacks two pieces: \<^verbatim>\<open>sec=a=b\<close> raises
  \<^verbatim>\<open>ValueError\<close>; and the empty string, which only the test for \<^verbatim>\<open>None\<close> guards,
  yields the dict with the one empty flag.
\<close>

theorem C5_parse_options_first_equals_fails:
  "parse_options (Some ''sec=a=b'') = Inl ValueError \<and> parse_options (Some []) = Inr [([], [])]"
  by code_simp

section \<open>Matcher: properties\<close>

text \<open>
  Claim C4: for every entry list, path and client, \<^verbatim>\<open>filter_export\<close> returns exactly
  the entries whose key differs from the target, paths compared exactly and clients
  without regard to case, and raises \<^verbatim>\<open>LookupError\<close> if and only if no entry matched;
  so the entry added for client \<^verbatim>\<open>Host.Example.COM\<close> is removed for client
  \<^verbatim>\<open>host.example.com\<close> on the same path.
\<close>

theorem C4_filter_export:
  "filter_export (Some exps) path host =
     (if list_ex (\<lambda>e. fst e = path \<and> lower (fst (snd e)) = lower host) exps
      then Inr (filter (\<lambda>e. \<not> (fst e = path \<and> lower (fst (snd e)) = lower host)) exps)
      else Inl LookupError)
   \<and> filter_export (Some [(path, ''Host.Example.COM'', opts)]) path ''host.example.com'' = Inr []
   \<and> replace_export no_faults ''/export'' ''host.example.com'' None False
        (snd (replace_export no_faults ''/export'' ''Host.Example.COM'' (Some ''rw'') False
                \<lparr>exports_file = Some [], tmp_exists = False\<rparr>))
      = (Inr (), \<lparr>exports_file = Some managed_comment, tmp_exists = False\<rparr>)"
proof -
  have "lower ''Host.Example.COM'' = lower ''host.example.com''"
    by code_simp
  then have "filter_export (Some exps) path host =
     (if list_ex (\<lambda>e. fst e = path \<and> lower (fst (snd e)) = lower host) exps
      then Inr (filter (\<lambda>e. \<not> (fst e = path \<and> lower (fst (snd e)) = lower host)) exps)
      else Inl LookupError)
   \<and> filter_export (Some [(path, ''Host.Example.COM'', opts)]) path ''host.example.com'' = Inr []"
    by (simp add: filter_export_eq same_export_def)
  moreover have "replace_export no_faults ''/export'' ''host.example.com'' None False
        (snd (replace_export no_faults ''/export'' ''Host.Example.COM'' (Some ''rw'') False
                \<lparr>exports_file = Some [], tmp_exists = False\<rparr>))
      = (Inr (), \<lparr>exports_file = Some managed_comment, tmp_exists = False\<rparr>)"
    by code_simp
  ultimately show ?thesis by simp
qed


section \<open>Entry parser: properties\<close>

text \<open>
  Claim C6, as the specification states it: a line whose host group has unbalanced
  parentheses makes \<^verbatim>\<open>_parse_export\<close> fail. A group with an opening parenthesis and
  no closing one is accepted: the test of the code looks for \<^verbatim>\<open>)\<close> only, so the
  whole token is the client and the option string is empty.
\<close>

theorem C6_unbalanced_parentheses_counterexample:
  "parse_export ''/export client(ro\<newline>'' = Inr [(''/export'', ''client(ro'', [])]"
  by code_simp

text \<open>
  Claim C6, amended: for every line that the tokenizer splits into a path and host
  groups, \<^verbatim>\<open>_parse_export\<close> fails, with \<^verbatim>\<open>ValueError\<close>, when some host group has a
  closing parenthesis and no opening one; and when no host group has a closing
  parenthesis, an opening one included or not, it returns every group whole as a client
  with the empty option string.
\<close>

theorem C6_unbalanced_parentheses:
  assumes "shlex_split line = Inr (path # hosts)"
  shows "((\<exists>h\<in>set hosts. CHR '')'' \<in> set h \<and> CHR ''('' \<notin> set h) \<longrightarrow> parse_export line = Inl ValueError)
       \<and> ((\<forall>h\<in>set hosts. CHR '')'' \<notin> set h) \<longrightarrow>
            parse_export line = Inr (map (\<lambda>h. (path, h, [])) hosts))"
  using assms by (simp add: parse_export_tokens parse_hosts_close_only parse_hosts_no_close)

text \<open>
  Claim C6, the amended theorem at the lines \<^verbatim>\<open>/export ro) *(rw)\<close> and
  \<^verbatim>\<open>/export client(ro (rw\<close>.
\<close>

theorem C6_unbalanced_parentheses_witness:
  "parse_export ''/export ro) *(rw)'' = Inl ValueError
   \<and> parse_export ''/export client(ro (rw'' = Inr [(''/export'', ''client(ro'', []), (''/export'', ''(rw'', [])]"
proof -
  have a: "shlex_split ''/export ro) *(rw)'' = Inr [''/export'', ''ro)'', ''*(rw)'']"
    by code_simp
  have b: "shlex_split ''/export client(ro (rw'' = Inr [''/export'', ''client(ro'', ''(rw'']"
    by code_simp
  show ?thesis
    using C6_unbalanced_parentheses [OF a] C6_unbalanced_parentheses [OF b] by simp
qed

section \<open>Transactional rewriter: properties\<close>

subsection \<open>Failures\<close>

text \<open>
  A failed \<^verbatim>\<open>replace_export\<close> leaves the exports file as it was, and after an
  \<^verbatim>\<open>IOError\<close> or \<^verbatim>\<open>OSError\<close> the temporary file is gone.
\<close>

lemma replace_export_failure_keeps_registry:
  "replace_export ev path clients options clear_all f = (Inl e, f1) \<Longrightarrow>
     exports_file f1 = exports_file f"
  by (auto simp: replace_export_def open_exports_def Let_def
           split: if_splits sum.splits option.splits)

lemma replace_export_io_failure_unlinks:
  "replace_export ev path clients options clear_all f = (Inl e, f1) \<Longrightarrow>
     \<not> mktemp_fails ev \<Longrightarrow> e = IOError \<or> e = OSError \<Longrightarrow> \<not> tmp_exists f1"
  by (auto simp: replace_export_def open_exports_def Let_def
           split: if_splits sum.splits option.splits)

text \<open>
  Claim C1: on any failure of \<^verbatim>\<open>replace_export\<close> the temporary file is deleted and
  the failure propagated. The handler of the rewrite catches \<^verbatim>\<open>(IOError, OSError)\<close>
  only: the \<^verbatim>\<open>ValueError\<close> that \<^verbatim>\<open>_parse_export\<close> raises on the line
  \<^verbatim>\<open>/export client)\<close> propagates and the temporary file stays behind.
\<close>

theorem C1_temp_file_left_on_parse_error:
  "replace_export no_faults ''/srv'' ''*'' None False
     \<lparr>exports_file = Some ''/export client)\<newline>'', tmp_exists = False\<rparr>
   = (Inl ValueError, \<lparr>exports_file = Some ''/export client)\<newline>'', tmp_exists = True\<rparr>)"
  by code_simp

text \<open>
  Claim C3, as the specification states it: a missing exports file is read as empty
  input and the rewrite completes. The code opens the file read-only, and
  \<^verbatim>\<open>_open_exports\<close> raises \<^verbatim>\<open>IOError\<close> for a missing file unless it may write.
\<close>

theorem C3_missing_registry_counterexample:
  "replace_export no_faults ''/export'' ''10.0.0.1'' (Some ''rw'') False
     \<lparr>exports_file = None, tmp_exists = False\<rparr>
   = (Inl IOError, \<lparr>exports_file = None, tmp_exists = False\<rparr>)"
  by code_simp

text \<open>
  Claim C3, amended: when the exports file does not exist, \<^verbatim>\<open>replace_export\<close> fails:
  with \<^verbatim>\<open>IOError\<close> once the temporary file is created, which it deletes again, and
  with \<^verbatim>\<open>OSError\<close> when the temporary file cannot be created; no exports file is
  produced.
\<close>

theorem C3_missing_registry:
  assumes "exports_file f = None"
  shows "replace_export ev path clients options clear_all f =
           (if mktemp_fails ev then (Inl OSError, f) else (Inl IOError, f\<lparr>tmp_exists := False\<rparr>))"
  using assms by (simp add: replace_export_def open_exports_def)

text \<open>Claim C3, the amended theorem for an add of \<^verbatim>\<open>/export *(rw)\<close>.\<close>

theorem C3_missing_registry_witness:
  "replace_export no_faults ''/export'' ''*'' (Some ''rw'') False \<lparr>exports_file = None, tmp_exists = False\<rparr>
     = (Inl IOError, \<lparr>exports_file = None, tmp_exists = False\<rparr>)"
  using C3_missing_registry [of "\<lparr>exports_file = None, tmp_exists = False\<rparr>" no_faults
          "''/export''" "''*''" "Some ''rw''" False]
  by (simp add: no_faults_def)


subsection \<open>Lines copied and lines dropped\<close>

text \<open>
  A line that starts with \<^verbatim>\<open>#\<close> is copied whatever the flags are. A blank line is
  copied by the branch of the lines without a match when \<^verbatim>\<open>clear_all\<close> is off, and
  dropped when it is on.
\<close>

lemma process_line_comment:
  "disk_limit ev = None \<Longrightarrow> line \<noteq> [] \<Longrightarrow> hd line = CHR ''#'' \<Longrightarrow>
     process_line ev path clients clear_all line (out, n) = Inr (out @ line, n + 1)"
  by (simp add: process_line_def file_write_unlimited)

lemma parse_export_blank: "parse_export [CHR 0x0A] = Inr []"
  by code_simp

lemma process_line_blank_kept:
  "disk_limit ev = None \<Longrightarrow>
     process_line ev path clients False [CHR 0x0A] (out, n) = Inr (out @ [CHR 0x0A], n + 1)"
  by (simp add: process_line_def parse_export_blank match_export_def file_write_unlimited)

lemma process_line_blank_dropped:
  "process_line ev path clients True [CHR 0x0A] (out, n) = Inr (out, n)"
  by (simp add: process_line_def)

text \<open>
  Claim C7: every comment or blank line is copied to the output, also with
  \<^verbatim>\<open>clear_all\<close>. The test \<^verbatim>\<open>line == ''\<close> of the loop never holds for a line read
  from a file, a blank line being \<^verbatim>\<open>'\n'\<close>; the blank line is handled as an entry line
  and \<^verbatim>\<open>clear_all\<close> drops it, here together with the entry line.
\<close>

theorem C7_clear_all_drops_blank_line:
  "replace_export no_faults ''/srv'' ''*'' None True
     \<lparr>exports_file = Some ''# shares\<newline>\<newline>/export *(ro)\<newline>'', tmp_exists = False\<rparr>
   = (Inr (), \<lparr>exports_file = Some ''# shares\<newline>'', tmp_exists = False\<rparr>)"
  by code_simp

text \<open>
  Claim C8, as the specification states it: when the output has no entry line, however
  many comment lines were copied, the explanatory comment is written. The counter
  \<^verbatim>\<open>lines\<close> counts the copied comment lines too: removing the only entry of a file
  that starts with a comment leaves the comment alone.
\<close>

theorem C8_managed_comment_counterexample:
  "replace_export no_faults ''/export'' ''*'' None False
     \<lparr>exports_file = Some ''# shares\<newline>/export *(ro)\<newline>'', tmp_exists = False\<rparr>
   = (Inr (), \<lparr>exports_file = Some ''# shares\<newline>'', tmp_exists = False\<rparr>)"
  by code_simp

text \<open>
  Claim C8, amended: after every successful rewrite, the new exports file is what the
  loop wrote, then the explanatory comment exactly when the loop wrote nothing (no
  comment line, no copied line and no rewritten line), then the added entry line if
  there is one; so the new exports file is never empty.
\<close>

theorem C8_managed_comment:
  assumes "exports_file f = Some content"
    and "replace_export ev path clients options clear_all f = (Inr (), f1)"
  shows "\<exists>out lines.
           copy_lines ev path clients clear_all (file_lines content) ([], 0) = Inr (out, lines)
         \<and> (lines = 0 \<longleftrightarrow> out = [])
         \<and> exports_file f1 =
             Some (out @ (if lines = 0 then managed_comment else [])
                       @ (case options of None \<Rightarrow> [] | Some opts \<Rightarrow> line_text path [(path, clients, opts)]))
         \<and> exports_file f1 \<noteq> Some []"
proof -
  from assms obtain final where
    rw: "rewrite ev path clients options clear_all content = Inr final" and
    f1: "exports_file f1 = Some final"
    by (auto simp: replace_export_def open_exports_def Let_def split: if_splits sum.splits)
  from rw obtain st where
    st: "copy_lines ev path clients clear_all (file_lines content) ([], 0) = Inr st" and
    rest: "(case st of (out, lines) \<Rightarrow>
             bind_err (if lines = 0 then file_write ev managed_comment out else Inr out) (\<lambda>out1.
               bind_err (case options of
                           None \<Rightarrow> Inr out1
                         | Some opts \<Rightarrow> write_exports ev [(path, clients, opts)] out1) (\<lambda>out2.
                 if rename_fails ev then Inl OSError else Inr out2))) = Inr final"
    unfolding rewrite_def bind_err_eq_Inr by blast
  obtain out lines where [simp]: "st = (out, lines)" by (cases st)
  from st have cp:
    "copy_lines ev path clients clear_all (file_lines content) ([], 0) = Inr (out, lines)"
    by simp
  from rest have "\<exists>o1 o2.
      (if lines = 0 then file_write ev managed_comment out else Inr out) = Inr o1 \<and>
      (case options of None \<Rightarrow> Inr o1
       | Some opts \<Rightarrow> write_exports ev [(path, clients, opts)] o1) = Inr o2 \<and>
      (if rename_fails ev then Inl OSError else Inr o2) = Inr final"
    by (simp add: bind_err_eq_Inr)
  then obtain o1 o2 where
    w1: "(if lines = 0 then file_write ev managed_comment out else Inr out) = Inr o1" and
    w2: "(case options of None \<Rightarrow> Inr o1
          | Some opts \<Rightarrow> write_exports ev [(path, clients, opts)] o1) = Inr o2" and
    w3: "(if rename_fails ev then Inl OSError else Inr o2) = Inr final"
    by blast
  from w3 have "o2 = final" by (simp split: if_splits)
  note w2 = w2 [unfolded this]
  from copy_lines_count [OF cp file_lines_nonempty] have cnt: "lines = 0 \<longleftrightarrow> out = []" by simp
  have o1: "o1 = out @ (if lines = 0 then managed_comment else [])"
    using w1 by (auto split: if_splits dest: file_write_Inr)
  have fin: "final = o1 @ (case options of None \<Rightarrow> []
                           | Some opts \<Rightarrow> line_text path [(path, clients, opts)])"
  proof (cases options)
    case None
    with w2 show ?thesis by simp
  next
    case (Some opts)
    with w2 have "write_exports ev [(path, clients, opts)] o1 = Inr final" by simp
    from write_exports_text [OF _ _ this, of path] Some show ?thesis by simp
  qed
  have "o1 \<noteq> []" using o1 cnt by (auto simp: managed_comment_def)
  then have "final \<noteq> []" using fin by simp
  with cp cnt o1 fin f1 show ?thesis by auto
qed

text \<open>Claim C8, the amended theorem for an add to an empty exports file.\<close>

theorem C8_managed_comment_witness:
  "\<exists>out lines.
     copy_lines no_faults ''/export'' ''*'' False (file_lines []) ([], 0) = Inr (out, lines)
   \<and> (lines = 0 \<longleftrightarrow> out = [])
   \<and> Some ''# NFS exports managed by Ansible\<newline>/export *(rw)\<newline>'' =
       Some (out @ (if lines = 0 then managed_comment else [])
                 @ (case Some ''rw'' of None \<Rightarrow> [] | Some opts \<Rightarrow> line_text ''/export'' [(''/export'', ''*'', opts)]))"
proof -
  have h: "replace_export no_faults ''/export'' ''*'' (Some ''rw'') False
             \<lparr>exports_file = Some [], tmp_exists = False\<rparr>
           = (Inr (), \<lparr>exports_file = Some ''# NFS exports managed by Ansible\<newline>/export *(rw)\<newline>'',
                       tmp_exists = False\<rparr>)"
    by code_simp
  show ?thesis
    using C8_managed_comment [OF _ h, of "[]"] by simp
qed

subsection \<open>Entries removed and added\<close>

text \<open>
  Claim C9: after a successful add the exports file has exactly one entry with the
  key of the target, appended at the end. The new line is appended to whatever was
  copied last: when the last line of the file has no newline the two lines become one,
  and the file read back has no entry for \<^verbatim>\<open>/export\<close> at all.
\<close>

theorem C9_add_after_unterminated_line:
  "replace_export no_faults ''/export'' ''c'' (Some ''rw'') False
     \<lparr>exports_file = Some ''/x *(ro)'', tmp_exists = False\<rparr>
   = (Inr (), \<lparr>exports_file = Some ''/x *(ro)/export c(rw)\<newline>'', tmp_exists = False\<rparr>)
   \<and> file_lines ''/x *(ro)/export c(rw)\<newline>'' = [''/x *(ro)/export c(rw)\<newline>'']
   \<and> parse_export ''/x *(ro)/export c(rw)\<newline>'' =
       Inr [(''/x'', ''*'', ''ro)/expor''), (''/x'', ''c'', ''rw'')]"
  by code_simp

text \<open>
  Claim C10: when a removal takes an entry from a line of several, the entries that
  stay are written again in their order, each with its option string as parsed: the
  line becomes the path and the host groups of the entries that do not match, and it
  is dropped when none stays.
\<close>

theorem C10_survivors_reserialized:
  assumes "parse_export line = Inr exports"
    and "match_export (Some exports) path clients"
    and "line \<noteq> []" and "hd line \<noteq> CHR ''#''"
    and "disk_limit ev = None"
  shows "process_line ev path clients False line (out, lines) =
           (let rest = filter (\<lambda>e. \<not> (fst e = path \<and> lower (fst (snd e)) = lower clients)) exports
            in if rest = [] then Inr (out, lines)
               else Inr (out @ line_text path rest, lines + 1))"
proof -
  let ?rest = "filter (\<lambda>e. \<not> same_export e path clients) exports"
  from assms(2) have ex: "list_ex (\<lambda>e. same_export e path clients) exports"
    by (simp add: match_export_eq)
  then have filt: "filter_export (Some exports) path clients = Inr ?rest"
    by (simp add: filter_export_eq)
  from parse_export_path [OF assms(1)] obtain p where p: "\<forall>e\<in>set exports. fst e = p" by blast
  from ex obtain e where "e \<in> set exports" "same_export e path clients"
    by (auto simp: list_ex_iff)
  with p have "p = path" by (auto simp: same_export_def)
  with p have same: "\<forall>e\<in>set ?rest. fst e = path" by simp
  have step: "process_line ev path clients False line (out, lines) =
      (if ?rest \<noteq> [] then bind_err (write_exports ev ?rest out) (\<lambda>out1. Inr (out1, lines + 1))
       else Inr (out, lines))"
    using assms(1,2,3,4) filt by (simp add: process_line_def)
  show ?thesis
  proof (cases "?rest = []")
    case True
    with step show ?thesis by (simp add: same_export_def)
  next
    case False
    from write_exports_loop_unlimited [OF assms(5)] obtain out1 where
      w: "write_exports ev ?rest out = Inr out1"
      unfolding write_exports_def by blast
    from write_exports_text [OF False same w] have "out1 = out @ line_text path ?rest" .
    with step False w show ?thesis by (simp add: same_export_def)
  qed
qed

text \<open>
  Claim C10, the theorem at the line \<^verbatim>\<open>/export a(ro,sync) b(rw) c d()\<close> and the
  removal of client \<^verbatim>\<open>B\<close>.
\<close>

theorem C10_survivors_reserialized_witness:
  "process_line no_faults ''/export'' ''B'' False ''/export a(ro,sync) b(rw) c d()\<newline>'' ([], 0)
     = Inr (''/export a(ro,sync) c d\<newline>'', 1)"
proof -
  have p: "parse_export ''/export a(ro,sync) b(rw) c d()\<newline>'' =
             Inr [(''/export'', ''a'', ''ro,sync''), (''/export'', ''b'', ''rw''),
                  (''/export'', ''c'', []), (''/export'', ''d'', [])]"
    by code_simp
  have m: "match_export (Some [(''/export'', ''a'', ''ro,sync''), (''/export'', ''b'', ''rw''),
                  (''/export'', ''c'', []), (''/export'', ''d'', [])]) ''/export'' ''B''"
    by code_simp
  have l: "lower ''a'' \<noteq> lower ''B''" "lower ''b'' = lower ''B''" "lower ''c'' \<noteq> lower ''B''"
      "lower ''d'' \<noteq> lower ''B''"
    by code_simp+
  show ?thesis
    using C10_survivors_reserialized [OF p m, of no_faults "[]" 0] l
    by (simp add: no_faults_def line_text_def host_text_def quoted_path_def)
qed


end
